theory Spec2Isabelle
  imports Complex_Main
begin

section \<open>Radially symmetric windows (skimage/filters/window.py)\<close>

text \<open>
  The module builds circularly symmetric windows from a 1-D window profile. Its own code
  is two coordinate mappers (\<open>_rotational_mapping\<close>, \<open>_ndrotational_mapping\<close>) and two
  builders (\<open>get_window2\<close>, \<open>get_windownd\<close>); everything else is numpy, scipy's
  \<open>get_window\<close>, and two functions of the package that live in other modules
  (\<open>safe_as_int\<close>, \<open>warp\<close>).

  Numbers: a Python \<open>int\<close> is an \<open>int\<close>; a Python \<open>float\<close> and an element of a
  \<open>float64\<close> array are idealised as a \<open>real\<close> (no rounding, no NaN, no infinities), an
  element of an \<open>int64\<close> array is a \<open>real\<close> that holds an integer (no wrap-around). The
  division \<open>/\<close> is Python 3's true division.
\<close>

subsection \<open>Errors and scalars\<close>

text \<open>
  The module raises nothing itself: every failure is an exception of a callee. Each
  constructor stands for one raising site.
  \<^item> \<open>InvalidSizeError\<close>: the \<open>ValueError\<close> of \<open>safe_as_int\<close> for a value with a fractional part;
  \<^item> \<open>UnknownWindowError\<close>: the \<open>ValueError\<close> of scipy's \<open>get_window\<close>;
  \<^item> \<open>DimensionMismatchError\<close>: the \<open>ValueError\<close> of \<open>np.hstack\<close> when it is given no array
    at all, which in this module happens exactly when \<open>ndim < 1\<close>;
  \<^item> \<open>AxisError\<close>: numpy's \<open>AxisError\<close>, an axis that the array does not have;
  \<^item> \<open>IndexError\<close>: numpy's \<open>IndexError\<close>, an index outside an axis;
  \<^item> \<open>ShapeError\<close>: the \<open>ValueError\<close> of \<open>reshape\<close>, \<open>concatenate\<close> and of an assignment whose
    shapes do not fit.
\<close>

datatype error =
    InvalidSizeError
  | UnknownWindowError
  | DimensionMismatchError
  | AxisError
  | IndexError
  | ShapeError

datatype pynum = PyInt int | PyFloat real

fun num_value :: "pynum \<Rightarrow> real" where
  "num_value (PyInt n) = of_int n"
| "num_value (PyFloat x) = x"

datatype window_spec = Name string | Scalar real | Tuple string "real list"

text \<open>
  Modelled from the spec: \<open>safe_as_int\<close> of \<open>skimage/_shared/utils.py\<close>, which is not among
  the sources. The spec: a helper that converts a size-like value to an exact integer,
  failing if the value has a non-zero fractional part.
\<close>

definition safe_as_int :: "pynum \<Rightarrow> error + int" where
  "safe_as_int v =
     (if of_int \<lfloor>num_value v\<rfloor> = num_value v then Inr \<lfloor>num_value v\<rfloor>
      else Inl InvalidSizeError)"

subsection \<open>Arrays\<close>

text \<open>
  A numpy array is its element type, its shape and its elements in row-major (C) order.
\<close>

datatype dtype = Int64 | Float64

record ndarray =
  dtype :: dtype
  shape :: "nat list"
  data :: "real list"

definition wf_array :: "ndarray \<Rightarrow> bool" where
  "wf_array a \<longleftrightarrow> length (data a) = prod_list (shape a)"

text \<open>The C cast of a float to an integer truncates towards zero.\<close>

definition truncate :: "real \<Rightarrow> int" where
  "truncate x = (if 0 \<le> x then \<lfloor>x\<rfloor> else \<lceil>x\<rceil>)"

fun cast :: "dtype \<Rightarrow> real \<Rightarrow> real" where
  "cast Float64 x = x"
| "cast Int64 x = of_int (truncate x)"

fun promote :: "dtype \<Rightarrow> dtype \<Rightarrow> dtype" where
  "promote Int64 Int64 = Int64"
| "promote _ _ = Float64"

text \<open>All multi-indices of a shape, in row-major order, and the flat position of one.\<close>

fun indices :: "nat list \<Rightarrow> nat list list" where
  "indices [] = [[]]"
| "indices (d # ds) = concat (map (\<lambda>i. map ((#) i) (indices ds)) [0..<d])"

fun flat_index :: "nat list \<Rightarrow> nat list \<Rightarrow> nat" where
  "flat_index (d # ds) (i # is) = i * prod_list ds + flat_index ds is"
| "flat_index _ _ = 0"

subsection \<open>The numpy operations the module uses\<close>

text \<open>\<open>np.zeros_like(a)\<close>: the shape and the element type of \<open>a\<close>, every element 0.\<close>

definition np_zeros_like :: "ndarray \<Rightarrow> ndarray" where
  "np_zeros_like a = a\<lparr>data := map (\<lambda>_. 0) (data a)\<rparr>"

text \<open>\<open>a - c\<close> for a Python float \<open>c\<close>: the result is a float array.\<close>

definition np_sub_scalar :: "ndarray \<Rightarrow> real \<Rightarrow> ndarray" where
  "np_sub_scalar a c = \<lparr>dtype = Float64, shape = shape a, data = map (\<lambda>x. x - c) (data a)\<rparr>"

text \<open>\<open>a ** 2\<close>.\<close>

definition np_square :: "ndarray \<Rightarrow> ndarray" where
  "np_square a = a\<lparr>data := map (\<lambda>x. x\<^sup>2) (data a)\<rparr>"

text \<open>\<open>np.sqrt(a)\<close>: a float array.\<close>

definition np_sqrt :: "ndarray \<Rightarrow> ndarray" where
  "np_sqrt a = \<lparr>dtype = Float64, shape = shape a, data = map sqrt (data a)\<rparr>"

text \<open>\<open>a + b\<close> for two arrays of one shape (the only case the module has).\<close>

definition np_add :: "ndarray \<Rightarrow> ndarray \<Rightarrow> error + ndarray" where
  "np_add a b =
     (if shape a = shape b
      then Inr \<lparr>dtype = promote (dtype a) (dtype b), shape = shape a,
                data = map2 (+) (data a) (data b)\<rparr>
      else Inl ShapeError)"

text \<open>
  \<open>a[:, k]\<close>: needs two axes and \<open>k\<close> inside the second one; the result drops that axis.
\<close>

definition np_column :: "ndarray \<Rightarrow> nat \<Rightarrow> error + ndarray" where
  "np_column a k =
     (case shape a of
        d0 # d1 # rest \<Rightarrow>
          if k < d1
          then let blk = prod_list rest in
               Inr \<lparr>dtype = dtype a, shape = d0 # rest,
                    data = map (\<lambda>m. data a ! (((m div blk) * d1 + k) * blk + m mod blk))
                             [0..<d0 * blk]\<rparr>
          else Inl IndexError
      | _ \<Rightarrow> Inl IndexError)"

text \<open>\<open>a.sum(axis=1)\<close>: needs a second axis; the result drops it.\<close>

definition np_sum_axis1 :: "ndarray \<Rightarrow> error + ndarray" where
  "np_sum_axis1 a =
     (case shape a of
        d0 # d1 # rest \<Rightarrow>
          let blk = prod_list rest in
          Inr \<lparr>dtype = dtype a, shape = d0 # rest,
               data = map (\<lambda>m. sum_list (map (\<lambda>j. data a ! (((m div blk) * d1 + j) * blk + m mod blk))
                                             [0..<d1]))
                        [0..<d0 * blk]\<rparr>
      | _ \<Rightarrow> Inl AxisError)"

text \<open>
  \<open>a[:, 0] = v\<close>: needs two axes and a non-empty second one; \<open>v\<close> has the shape of
  \<open>a[:, 0]\<close> here. The values are cast to the element type of \<open>a\<close>.
\<close>

definition np_set_column0 :: "ndarray \<Rightarrow> ndarray \<Rightarrow> error + ndarray" where
  "np_set_column0 a v =
     (case shape a of
        d0 # d1 # rest \<Rightarrow>
          if d1 = 0 then Inl IndexError
          else if shape v \<noteq> d0 # rest then Inl ShapeError
          else let blk = prod_list rest in
               Inr (a\<lparr>data := map (\<lambda>k. if (k div blk) mod d1 = 0
                                          then cast (dtype a) (data v ! ((k div (d1 * blk)) * blk + k mod blk))
                                          else data a ! k)
                                  [0..<length (data a)]\<rparr>)
      | _ \<Rightarrow> Inl IndexError)"

text \<open>
  \<open>np.concatenate(arrs, axis)\<close>: at least one array, the axis must exist, and the shapes
  must agree off the axis.
\<close>

definition np_concatenate :: "nat \<Rightarrow> ndarray list \<Rightarrow> error + ndarray" where
  "np_concatenate axis arrs =
     (case arrs of
        [] \<Rightarrow> Inl DimensionMismatchError
      | a # _ \<Rightarrow>
          if length (shape a) \<le> axis then Inl AxisError
          else if \<exists>b \<in> set arrs. (shape b)[axis := 0] \<noteq> (shape a)[axis := 0]
          then Inl ShapeError
          else Inr \<lparr>dtype = foldl promote (dtype a) (map dtype arrs),
                    shape = (shape a)[axis := sum_list (map (\<lambda>b. shape b ! axis) arrs)],
                    data = concat (map (\<lambda>outer.
                             concat (map (\<lambda>b. take (prod_list (drop axis (shape b)))
                                                (drop (outer * prod_list (drop axis (shape b))) (data b)))
                                         arrs))
                             [0..<prod_list (take axis (shape a))])\<rparr>)"

text \<open>
  \<open>np.column_stack(arrs)\<close>: an array with fewer than two axes becomes one column, then
  the arrays are concatenated along axis 1.
\<close>

definition as_column :: "ndarray \<Rightarrow> ndarray" where
  "as_column a = (if length (shape a) < 2 then a\<lparr>shape := [prod_list (shape a), 1]\<rparr> else a)"

definition np_column_stack :: "ndarray list \<Rightarrow> error + ndarray" where
  "np_column_stack arrs = np_concatenate 1 (map as_column arrs)"

text \<open>
  \<open>np.hstack(arrs)\<close>: along axis 0 when the first array has one axis, along axis 1
  otherwise; no array at all is an error.
\<close>

definition atleast_1d :: "ndarray \<Rightarrow> ndarray" where
  "atleast_1d a = (if shape a = [] then a\<lparr>shape := [1]\<rparr> else a)"

definition np_hstack :: "ndarray list \<Rightarrow> error + ndarray" where
  "np_hstack arrs =
     (let arrs1 = map atleast_1d arrs in
      if arrs1 \<noteq> [] \<and> length (shape (hd arrs1)) = 1 then np_concatenate 0 arrs1
      else np_concatenate 1 arrs1)"

text \<open>\<open>np.dstack(arrs)\<close>: every array gets at least three axes, then axis 2 is joined.\<close>

definition atleast_3d :: "ndarray \<Rightarrow> ndarray" where
  "atleast_3d a =
     (case shape a of
        [] \<Rightarrow> a\<lparr>shape := [1, 1, 1]\<rparr>
      | [n] \<Rightarrow> a\<lparr>shape := [1, n, 1]\<rparr>
      | [m, n] \<Rightarrow> a\<lparr>shape := [m, n, 1]\<rparr>
      | _ \<Rightarrow> a)"

definition np_dstack :: "ndarray list \<Rightarrow> error + ndarray" where
  "np_dstack arrs = np_concatenate 2 (map atleast_3d arrs)"

text \<open>
  \<open>np.arange(n)\<close>: the integers \<open>k\<close> with \<open>0 \<le> k < n\<close>; an int array for a Python int,
  a float array for a Python float.
\<close>

definition axis_length :: "pynum \<Rightarrow> nat" where
  "axis_length n = nat \<lceil>num_value n\<rceil>"

definition np_arange :: "pynum \<Rightarrow> ndarray" where
  "np_arange n =
     \<lparr>dtype = (case n of PyInt _ \<Rightarrow> Int64 | PyFloat _ \<Rightarrow> Float64),
      shape = [axis_length n],
      data = map real [0..<axis_length n]\<rparr>"

text \<open>
  \<open>np.meshgrid(*xs)\<close> with the default \<open>indexing='xy'\<close>: one array per input, all of one
  shape, the lengths of the inputs with the first two swapped; array \<open>a\<close> holds input
  \<open>a\<close> along its own axis (axes 0 and 1 swapped as well).
\<close>

definition mesh_shape :: "nat list \<Rightarrow> nat list" where
  "mesh_shape lens = (case lens of a # b # rest \<Rightarrow> b # a # rest | _ \<Rightarrow> lens)"

definition mesh_axis :: "nat \<Rightarrow> nat \<Rightarrow> nat" where
  "mesh_axis n a = (if 2 \<le> n \<and> a < 2 then 1 - a else a)"

definition np_meshgrid :: "ndarray list \<Rightarrow> ndarray list" where
  "np_meshgrid xs =
     (let shp = mesh_shape (map (\<lambda>x. length (data x)) xs) in
      map (\<lambda>a. \<lparr>dtype = dtype (xs ! a), shape = shp,
                 data = map (\<lambda>idx. data (xs ! a) ! (idx ! mesh_axis (length xs) a)) (indices shp)\<rparr>)
          [0..<length xs])"

text \<open>\<open>a.swapaxes(0, 1)\<close>: needs two axes.\<close>

fun swap01 :: "'a list \<Rightarrow> 'a list" where
  "swap01 (x # y # rest) = y # x # rest"
| "swap01 xs = xs"

definition np_swapaxes01 :: "ndarray \<Rightarrow> error + ndarray" where
  "np_swapaxes01 a =
     (if length (shape a) < 2 then Inl AxisError
      else Inr \<lparr>dtype = dtype a, shape = swap01 (shape a),
                data = map (\<lambda>idx. data a ! flat_index (shape a) (swap01 idx))
                           (indices (swap01 (shape a)))\<rparr>)"

text \<open>
  \<open>a.reshape(n, -1)\<close>: \<open>n\<close> rows, the second length inferred; \<open>n\<close> must be positive and
  divide the number of elements.
\<close>

definition np_reshape_rows :: "ndarray \<Rightarrow> int \<Rightarrow> error + ndarray" where
  "np_reshape_rows a n =
     (if n \<le> 0 \<or> prod_list (shape a) mod nat n \<noteq> 0 then Inl ShapeError
      else Inr (a\<lparr>shape := [nat n, prod_list (shape a) div nat n]\<rparr>))"

text \<open>\<open>a.T\<close>: the axes reversed.\<close>

definition np_transpose :: "ndarray \<Rightarrow> ndarray" where
  "np_transpose a =
     \<lparr>dtype = dtype a, shape = rev (shape a),
      data = map (\<lambda>idx. data a ! flat_index (shape a) (rev idx)) (indices (rev (shape a)))\<rparr>"

text \<open>\<open>a.astype(t)\<close>.\<close>

definition np_astype :: "ndarray \<Rightarrow> dtype \<Rightarrow> ndarray" where
  "np_astype a t = \<lparr>dtype = t, shape = shape a, data = map (cast t) (data a)\<rparr>"

text \<open>
  \<open>np.expand_dims(a, axis=1)\<close>, also written \<open>a[:, np.newaxis]\<close>: a new axis of length 1
  after the first one.
\<close>

definition np_expand_dims1 :: "ndarray \<Rightarrow> error + ndarray" where
  "np_expand_dims1 a =
     (case shape a of
        [] \<Rightarrow> Inl AxisError
      | d0 # rest \<Rightarrow> Inr (a\<lparr>shape := d0 # 1 # rest\<rparr>))"

text \<open>\<open>a[k:]\<close> for \<open>k \<ge> 0\<close>: the first axis from position \<open>k\<close> on.\<close>

definition np_slice_from :: "ndarray \<Rightarrow> int \<Rightarrow> error + ndarray" where
  "np_slice_from a k =
     (case shape a of
        [] \<Rightarrow> Inl IndexError
      | d0 # rest \<Rightarrow>
          let start = (if k < 0 then nat (max 0 (int d0 + k)) else min (nat k) d0) in
          Inr (a\<lparr>shape := (d0 - start) # rest,
                 data := drop (start * prod_list rest) (data a)\<rparr>))"

subsection \<open>The coordinate mappers\<close>

text \<open>
  \<open>_rotational_mapping(output_coords, window_size)\<close>: the radius of every \<open>(col, row)\<close>
  to the centre \<open>window_size / 2 - 0.5\<close>, returned as \<open>(0, radius)\<close>.
\<close>

definition rotational_mapping :: "ndarray \<Rightarrow> pynum \<Rightarrow> error + ndarray" where
  "rotational_mapping output_coords window_size =
     (case safe_as_int window_size of Inl e \<Rightarrow> Inl e | Inr ws \<Rightarrow>
      (let center = of_int ws / 2 - 0.5 in
      (case np_column output_coords 0 of Inl e \<Rightarrow> Inl e | Inr c0 \<Rightarrow>
      (case np_column output_coords 1 of Inl e \<Rightarrow> Inl e | Inr c1 \<Rightarrow>
      (case np_add (np_square (np_sub_scalar c0 center)) (np_square (np_sub_scalar c1 center)) of
         Inl e \<Rightarrow> Inl e
       | Inr s \<Rightarrow>
          (let rr = np_sqrt s;
               cc = np_zeros_like rr
           in np_column_stack [cc, rr]))))))"

text \<open>
  \<open>_ndrotational_mapping(output_coords, window_size)\<close>: an array like \<open>output_coords\<close>,
  all zero but for column 0, which receives the radius over all the columns.
\<close>

definition ndrotational_mapping :: "ndarray \<Rightarrow> pynum \<Rightarrow> error + ndarray" where
  "ndrotational_mapping output_coords window_size =
     (case safe_as_int window_size of Inl e \<Rightarrow> Inl e | Inr ws \<Rightarrow>
      (let center = of_int ws / 2 - 0.5;
           coords = np_zeros_like output_coords
       in (case np_sum_axis1 (np_square (np_sub_scalar output_coords center)) of
             Inl e \<Rightarrow> Inl e
           | Inr s \<Rightarrow> np_set_column0 coords (np_sqrt s))))"

subsection \<open>The resampling routine\<close>

text \<open>
  Modelled from the spec: \<open>warp\<close> of \<open>skimage/transform\<close>, which is not among the sources.
  The spec: \<open>warp(image, inverse_map, map_args, output_shape)\<close> returns an array of shape
  \<open>output_shape\<close>; for each output pixel it calls \<open>inverse_map\<close> (with \<open>map_args\<close>) to find
  the source coordinate and interpolates the image there. The mappers of this module take
  all the \<open>(col, row)\<close> coordinates at once, as an \<open>(M, 2)\<close> array, so the model calls
  \<open>inverse_map\<close> once, on the pixels in row-major order. The spec leaves the interpolation
  open (nearest or linear, and nothing about a source coordinate outside the image): it
  is the parameter \<open>interp\<close>, which gives the value of an image at a \<open>(col, row)\<close> position.
  An axis of extent \<open>n\<close> has the pixels \<open>k\<close> with \<open>0 \<le> k < n\<close>.
\<close>

definition pixel_grid :: "nat \<Rightarrow> nat \<Rightarrow> ndarray" where
  "pixel_grid nrows ncols =
     \<lparr>dtype = Float64, shape = [nrows * ncols, 2],
      data = concat (map (\<lambda>r. concat (map (\<lambda>c. [real c, real r]) [0..<ncols])) [0..<nrows])\<rparr>"

definition warp ::
  "(ndarray \<Rightarrow> real \<times> real \<Rightarrow> real) \<Rightarrow> ndarray \<Rightarrow> (ndarray \<Rightarrow> 'args \<Rightarrow> error + ndarray) \<Rightarrow>
   'args \<Rightarrow> pynum \<times> pynum \<Rightarrow> error + ndarray" where
  "warp interp img inverse_map map_args output_shape =
     (let nrows = axis_length (fst output_shape);
          ncols = axis_length (snd output_shape)
      in case inverse_map (pixel_grid nrows ncols) map_args of
           Inl e \<Rightarrow> Inl e
         | Inr src \<Rightarrow>
             if shape src = [nrows * ncols, 2] \<and> length (data src) = nrows * ncols * 2
             then Inr \<lparr>dtype = Float64, shape = [nrows, ncols],
                       data = map (\<lambda>m. interp img (data src ! (2 * m), data src ! (2 * m + 1)))
                                  [0..<nrows * ncols]\<rparr>
             else Inl ShapeError)"

subsection \<open>The builders\<close>

text \<open>
  scipy's \<open>get_window(window, size, fftbins=False)\<close> is a parameter \<open>gw\<close> of the builders: it
  returns a 1-D float array or raises.

  Both builders keep the outer half of the profile:
  \<open>w = w[safe_as_int(np.floor(w.shape[0]/2)):]\<close>.
\<close>

definition half_profile :: "real list \<Rightarrow> error + ndarray" where
  "half_profile l =
     (let w = \<lparr>dtype = Float64, shape = [length l], data = l\<rparr> in
      case safe_as_int (PyFloat (of_int \<lfloor>real (hd (shape w)) / 2\<rfloor>)) of
        Inl e \<Rightarrow> Inl e
      | Inr k \<Rightarrow> np_slice_from w k)"

text \<open>
  The image that \<open>get_window2\<close> resamples, \<open>w[:, np.newaxis]\<close> of the outer half: one
  column.
\<close>

definition profile_image :: "real list \<Rightarrow> ndarray" where
  "profile_image l =
     \<lparr>dtype = Float64, shape = [length l - length l div 2, 1], data = drop (length l div 2) l\<rparr>"

text \<open>\<open>get_window2(window, size)\<close>.\<close>

definition get_window2 ::
  "(window_spec \<Rightarrow> pynum \<Rightarrow> error + real list) \<Rightarrow> (ndarray \<Rightarrow> real \<times> real \<Rightarrow> real) \<Rightarrow>
   window_spec \<Rightarrow> pynum \<Rightarrow> error + ndarray" where
  "get_window2 gw interp window sz =
     (case gw window sz of Inl e \<Rightarrow> Inl e | Inr l \<Rightarrow>
      (case half_profile l of Inl e \<Rightarrow> Inl e | Inr w \<Rightarrow>
       (case np_expand_dims1 w of Inl e \<Rightarrow> Inl e | Inr img \<Rightarrow>
          warp interp img rotational_mapping sz (sz, sz))))"

text \<open>
  The loop at the end of \<open>get_windownd\<close>,
  \<open>for i in range(ndim-1): w = np.expand_dims(w, axis=1)\<close>.
\<close>

fun expand_loop :: "nat \<Rightarrow> ndarray \<Rightarrow> error + ndarray" where
  "expand_loop 0 w = Inr w"
| "expand_loop (Suc n) w =
     (case np_expand_dims1 w of Inl e \<Rightarrow> Inl e | Inr w' \<Rightarrow> expand_loop n w')"

text \<open>
  The coordinates of \<open>get_windownd\<close>:
  \<open>L = [np.arange(size) for i in range(ndim)]\<close>,
  \<open>outcoords = np.hstack((np.meshgrid(*L))).swapaxes(0, 1).reshape(ndim, -1).T\<close>,
  \<open>outcoords = outcoords.astype(np.double)\<close>.
\<close>

definition lattice_coords :: "pynum \<Rightarrow> int \<Rightarrow> error + ndarray" where
  "lattice_coords sz ndim =
     (case np_hstack (np_meshgrid (replicate (nat ndim) (np_arange sz))) of
        Inl e \<Rightarrow> Inl e
      | Inr stacked \<Rightarrow>
     (case np_swapaxes01 stacked of Inl e \<Rightarrow> Inl e | Inr swapped \<Rightarrow>
     (case np_reshape_rows swapped ndim of Inl e \<Rightarrow> Inl e | Inr reshaped \<Rightarrow>
        Inr (np_astype (np_transpose reshaped) Float64))))"

text \<open>\<open>get_windownd(window, size, ndim)\<close>.\<close>

definition get_windownd ::
  "(window_spec \<Rightarrow> pynum \<Rightarrow> error + real list) \<Rightarrow> window_spec \<Rightarrow> pynum \<Rightarrow> int \<Rightarrow>
   error + ndarray" where
  "get_windownd gw window sz ndim =
     (case gw window sz of Inl e \<Rightarrow> Inl e | Inr l \<Rightarrow>
     (case half_profile l of Inl e \<Rightarrow> Inl e | Inr w \<Rightarrow>
     (case lattice_coords sz ndim of Inl e \<Rightarrow> Inl e | Inr outcoords \<Rightarrow>
     (case ndrotational_mapping outcoords sz of Inl e \<Rightarrow> Inl e | Inr coords \<Rightarrow>
     (case np_dstack [coords, outcoords] of Inl e \<Rightarrow> Inl e | Inr all_coords \<Rightarrow>
     (case expand_loop (nat (ndim - 1)) w of Inl e \<Rightarrow> Inl e | Inr w' \<Rightarrow>
        Inr all_coords))))))"

subsection \<open>Reading a result\<close>

text \<open>\<open>a[i, j]\<close> of a 2-D array and \<open>a[i, j, k]\<close> of a 3-D array.\<close>

definition item2 :: "ndarray \<Rightarrow> nat \<Rightarrow> nat \<Rightarrow> real" where
  "item2 a i j = data a ! (i * (shape a ! 1) + j)"

definition item3 :: "ndarray \<Rightarrow> nat \<Rightarrow> nat \<Rightarrow> nat \<Rightarrow> real" where
  "item3 a i j k = data a ! ((i * (shape a ! 1) + j) * (shape a ! 2) + k)"

text \<open>
  The result of \<open>get_windownd\<close> has shape \<open>(M, N, 2)\<close>: entry \<open>i\<close> pairs the mapped
  coordinate \<open>a[i, :, 0]\<close>, whose component 0 is the radius, with the lattice point
  \<open>a[i, :, 1]\<close>.
\<close>

definition pair_radius :: "ndarray \<Rightarrow> nat \<Rightarrow> real" where
  "pair_radius a i = item3 a i 0 0"

definition pair_coordinate :: "ndarray \<Rightarrow> nat \<Rightarrow> real list" where
  "pair_coordinate a i = map (\<lambda>j. item3 a i j 1) [0..<shape a ! 1]"

text \<open>
  The distance of pixel \<open>(row i, column j)\<close> to the centre of a window of size \<open>n\<close>.
\<close>

definition pixel_radius :: "int \<Rightarrow> nat \<Rightarrow> nat \<Rightarrow> real" where
  "pixel_radius n i j =
     sqrt ((real j - (of_int n / 2 - 1 / 2))\<^sup>2 + (real i - (of_int n / 2 - 1 / 2))\<^sup>2)"

text \<open>
  The Euclidean distance of row \<open>i\<close> of a 2-D array to the point \<open>(c, \<dots>, c)\<close>.
\<close>

definition radius_nd :: "ndarray \<Rightarrow> real \<Rightarrow> nat \<Rightarrow> real" where
  "radius_nd a c i = sqrt (\<Sum>j<shape a ! 1. (item2 a i j - c)\<^sup>2)"

subsection \<open>A window generator for the examples\<close>

text \<open>
  An instance of the parameter \<open>gw\<close>: the boxcar window of any length and the symmetric
  Hann window of length 4; every other specification is unknown.
\<close>

definition example_get_window :: "window_spec \<Rightarrow> pynum \<Rightarrow> error + real list" where
  "example_get_window window n =
     (case window of
        Name s \<Rightarrow>
          if s = ''boxcar'' then Inr (replicate (axis_length n) 1)
          else if s = ''hann'' \<and> num_value n = 4 then Inr [0, 3 / 4, 3 / 4, 0]
          else Inl UnknownWindowError
      | _ \<Rightarrow> Inl UnknownWindowError)"

section \<open>Properties\<close>

subsection \<open>Integer coercion\<close>

lemma safe_as_int_integral: "num_value sz = of_int n \<Longrightarrow> safe_as_int sz = Inr n"
  by (simp add: safe_as_int_def)


subsection \<open>The operations on 2-D arrays\<close>

lemma flat_bound: "i < M \<Longrightarrow> j < N \<Longrightarrow> i * N + j < M * (N::nat)"
proof -
  assume a: "i < M" "j < N"
  then have "i * N + j < i * N + N" by simp
  also have "\<dots> = Suc i * N" by simp
  also have "\<dots> \<le> M * N" using a(1) by (intro mult_le_mono1) simp
  finally show ?thesis .
qed

lemma np_column_2d:
  "shape a = [M, N] \<Longrightarrow> k < N \<Longrightarrow>
   np_column a k = Inr \<lparr>dtype = dtype a, shape = [M], data = map (\<lambda>m. data a ! (m * N + k)) [0..<M]\<rparr>"
  by (simp add: np_column_def)

lemma np_sum_axis1_2d:
  "shape a = [M, N] \<Longrightarrow>
   np_sum_axis1 a = Inr \<lparr>dtype = dtype a, shape = [M],
     data = map (\<lambda>m. sum_list (map (\<lambda>j. data a ! (m * N + j)) [0..<N])) [0..<M]\<rparr>"
  by (simp add: np_sum_axis1_def)

lemma np_set_column0_2d:
  "shape a = [M, N] \<Longrightarrow> 0 < N \<Longrightarrow> shape v = [M] \<Longrightarrow>
   np_set_column0 a v = Inr (a\<lparr>data := map (\<lambda>k. if k mod N = 0 then cast (dtype a) (data v ! (k div N))
                                               else data a ! k) [0..<length (data a)]\<rparr>)"
  by (simp add: np_set_column0_def)

lemma sum_list_upt: "sum_list (map f [0..<n]) = (\<Sum>j<n. f j)"
  by (simp add: sum_list_sum_nth atLeast0LessThan interv_sum_list_conv_sum_set_nat)

subsection \<open>The N-D mapper\<close>

lemma ndrotational_mapping_2d:
  assumes sh: "shape a = [M, N]" and wf: "wf_array a" and N: "0 < N"
    and sz: "num_value sz = of_int n"
  shows "ndrotational_mapping a sz =
     Inr \<lparr>dtype = dtype a, shape = [M, N],
          data = map (\<lambda>k. if k mod N = 0
                           then cast (dtype a) (radius_nd a (of_int n / 2 - 1 / 2) (k div N))
                           else 0) [0..<M * N]\<rparr>"
proof -
  have len: "length (data a) = M * N" using wf sh by (simp add: wf_array_def)
  let ?c = "of_int n / 2 - 1 / 2 :: real"
  let ?sq = "np_square (np_sub_scalar a ?c)"
  have sq: "shape ?sq = [M, N]" "data ?sq = map (\<lambda>x. (x - ?c)\<^sup>2) (data a)"
    by (simp_all add: np_square_def np_sub_scalar_def sh)
  have sum: "np_sum_axis1 ?sq = Inr \<lparr>dtype = dtype ?sq, shape = [M],
     data = map (\<lambda>m. sum_list (map (\<lambda>j. data ?sq ! (m * N + j)) [0..<N])) [0..<M]\<rparr>"
    by (rule np_sum_axis1_2d) (simp add: sq)
  have inner: "sum_list (map (\<lambda>j. data ?sq ! (m * N + j)) [0..<N]) = (\<Sum>j<N. (item2 a m j - ?c)\<^sup>2)"
    if "m < M" for m
  proof -
    have "map (\<lambda>j. data ?sq ! (m * N + j)) [0..<N] = map (\<lambda>j. (item2 a m j - ?c)\<^sup>2) [0..<N]"
      using that flat_bound[of m M _ N] by (intro map_cong) (auto simp: sq len item2_def sh)
    then show ?thesis by (simp add: sum_list_upt)
  qed
  let ?S = "\<lparr>dtype = dtype ?sq, shape = [M],
     data = map (\<lambda>m. sum_list (map (\<lambda>j. data ?sq ! (m * N + j)) [0..<N])) [0..<M]\<rparr>"
  have rad: "data (np_sqrt ?S) ! m = radius_nd a ?c m" if "m < M" for m
    using that by (simp add: np_sqrt_def inner radius_nd_def sh)
  have zl: "shape (np_zeros_like a) = [M, N]" "dtype (np_zeros_like a) = dtype a"
    "length (data (np_zeros_like a)) = M * N"
    by (simp_all add: np_zeros_like_def sh len)
  have zero: "data (np_zeros_like a) ! k = 0" if "k < M * N" for k
    using that by (simp add: np_zeros_like_def len)
  have set: "np_set_column0 (np_zeros_like a) (np_sqrt ?S) =
     Inr ((np_zeros_like a)\<lparr>data := map (\<lambda>k. if k mod N = 0
              then cast (dtype (np_zeros_like a)) (data (np_sqrt ?S) ! (k div N))
              else data (np_zeros_like a) ! k) [0..<length (data (np_zeros_like a))]\<rparr>)"
    by (rule np_set_column0_2d[where M = M]) (simp_all add: zl N np_sqrt_def)
  have dat: "map (\<lambda>k. if k mod N = 0
              then cast (dtype (np_zeros_like a)) (data (np_sqrt ?S) ! (k div N))
              else data (np_zeros_like a) ! k) [0..<length (data (np_zeros_like a))] =
     map (\<lambda>k. if k mod N = 0 then cast (dtype a) (radius_nd a ?c (k div N)) else 0) [0..<M * N]"
    unfolding zl
  proof (rule map_cong[OF refl])
    fix k assume "k \<in> set [0..<M * N]"
    then have k: "k < M * N" by simp
    then have "k div N < M" by (simp add: less_mult_imp_div_less)
    then show "(if k mod N = 0 then cast (dtype a) (data (np_sqrt ?S) ! (k div N))
                else data (np_zeros_like a) ! k) =
               (if k mod N = 0 then cast (dtype a) (radius_nd a ?c (k div N)) else 0)"
      using k by (simp add: rad zero)
  qed
  have "ndrotational_mapping a sz = np_set_column0 (np_zeros_like a) (np_sqrt ?S)"
    unfolding ndrotational_mapping_def safe_as_int_integral[OF sz]
    by (simp add: Let_def sum del: One_nat_def)
  also have "\<dots> = Inr ((np_zeros_like a)\<lparr>data :=
      map (\<lambda>k. if k mod N = 0 then cast (dtype a) (radius_nd a ?c (k div N)) else 0) [0..<M * N]\<rparr>)"
    unfolding set dat ..
  also have "\<dots> = Inr \<lparr>dtype = dtype a, shape = [M, N],
          data = map (\<lambda>k. if k mod N = 0 then cast (dtype a) (radius_nd a ?c (k div N)) else 0)
                     [0..<M * N]\<rparr>"
    using sh by (cases a) (simp add: np_zeros_like_def)
  finally show ?thesis .
qed


lemma item2_mapped:
  assumes "i < M" "j < N"
  shows "item2 \<lparr>dtype = t, shape = [M, N], data = map f [0..<M * N]\<rparr> i j = f (i * N + j)"
  using flat_bound[OF assms] by (simp add: item2_def)







subsection \<open>The 2-D mapper\<close>

lemma length_pairs: "length (concat (map (\<lambda>k. [f k, g k]) [0..<M])) = M * 2"
  by (induction M) simp_all

lemma nth_pairs:
  "i < M \<Longrightarrow> concat (map (\<lambda>k. [f k, g k]) [0..<M]) ! (i * 2) = f i \<and>
             concat (map (\<lambda>k. [f k, g k]) [0..<M]) ! (i * 2 + 1) = g i"
proof (induction M)
  case 0
  then show ?case by simp
next
  case (Suc M)
  show ?case
  proof (cases "i < M")
    case True
    then have "i * 2 < M * 2" "i * 2 + 1 < M * 2" by simp_all
    then show ?thesis using Suc.IH[OF True] by (simp add: nth_append length_pairs)
  next
    case False
    then have "i = M" using Suc.prems by simp
    then show ?thesis by (simp add: nth_append length_pairs)
  qed
qed

lemma take1_drop: "k < length xs \<Longrightarrow> take (Suc 0) (drop k xs) = [xs ! k]"
  by (simp add: take_Suc_conv_app_nth)

lemma np_column_stack_pair:
  assumes "shape c = [M]" "shape r = [M]" "length (data c) = M" "length (data r) = M"
    "dtype c = Float64" "dtype r = Float64"
  shows "np_column_stack [c, r] =
     Inr \<lparr>dtype = Float64, shape = [M, 2],
          data = concat (map (\<lambda>k. [data c ! k, data r ! k]) [0..<M])\<rparr>"
proof -
  have "concat (map (\<lambda>k. take (Suc 0) (drop k (data c)) @ take (Suc 0) (drop k (data r))) [0..<M]) =
        concat (map (\<lambda>k. [data c ! k, data r ! k]) [0..<M])"
    by (rule arg_cong[where f = concat], rule map_cong[OF refl]) (simp add: take1_drop assms)
  then show ?thesis
    using assms by (simp add: np_column_stack_def np_concatenate_def as_column_def)
qed

lemma rotational_mapping_2d:
  assumes sh: "shape a = [M, N]" and wf: "wf_array a" and N: "2 \<le> N"
    and sz: "num_value sz = of_int n"
  shows "rotational_mapping a sz =
     Inr \<lparr>dtype = Float64, shape = [M, 2],
          data = concat (map (\<lambda>k. [0, sqrt ((item2 a k 0 - (of_int n / 2 - 1 / 2))\<^sup>2 +
                                            (item2 a k 1 - (of_int n / 2 - 1 / 2))\<^sup>2)])
                             [0..<M])\<rparr>"
proof -
  define c :: real where "c = of_int n / 2 - 0.5"
  define ca where "ca = \<lparr>dtype = dtype a, shape = [M], data = map (\<lambda>m. data a ! (m * N + 0)) [0..<M]\<rparr>"
  define cb where "cb = \<lparr>dtype = dtype a, shape = [M], data = map (\<lambda>m. data a ! (m * N + 1)) [0..<M]\<rparr>"
  have ca: "np_column a 0 = Inr ca" unfolding ca_def using N by (intro np_column_2d[OF sh]) simp
  have cb: "np_column a 1 = Inr cb" unfolding cb_def using N by (intro np_column_2d[OF sh]) simp
  define s where "s = \<lparr>dtype = Float64, shape = [M],
     data = map (\<lambda>k. (item2 a k 0 - c)\<^sup>2 + (item2 a k 1 - c)\<^sup>2) [0..<M]\<rparr>"
  have "map2 (+) (data (np_square (np_sub_scalar ca c))) (data (np_square (np_sub_scalar cb c))) =
        map (\<lambda>k. (item2 a k 0 - c)\<^sup>2 + (item2 a k 1 - c)\<^sup>2) [0..<M]"
    by (rule nth_equalityI) (simp_all add: np_square_def np_sub_scalar_def item2_def sh ca_def cb_def)
  then have add: "np_add (np_square (np_sub_scalar ca c)) (np_square (np_sub_scalar cb c)) = Inr s"
    by (simp add: np_add_def np_square_def np_sub_scalar_def s_def ca_def cb_def)
  define rr where "rr = np_sqrt s"
  define cc where "cc = np_zeros_like rr"
  have rr: "shape rr = [M]" "dtype rr = Float64"
    "data rr = map (\<lambda>k. sqrt ((item2 a k 0 - c)\<^sup>2 + (item2 a k 1 - c)\<^sup>2)) [0..<M]"
    by (simp_all add: rr_def np_sqrt_def s_def)
  have cc: "shape cc = [M]" "dtype cc = Float64" "data cc = map (\<lambda>k. 0) [0..<M]"
    by (simp_all add: cc_def np_zeros_like_def rr map_replicate_const)
  have stack: "np_column_stack [cc, rr] =
     Inr \<lparr>dtype = Float64, shape = [M, 2],
          data = concat (map (\<lambda>k. [data cc ! k, data rr ! k]) [0..<M])\<rparr>"
    by (rule np_column_stack_pair) (simp_all add: rr cc)
  have dat: "concat (map (\<lambda>k. [data cc ! k, data rr ! k]) [0..<M]) =
     concat (map (\<lambda>k. [0, sqrt ((item2 a k 0 - c)\<^sup>2 + (item2 a k 1 - c)\<^sup>2)]) [0..<M])"
    by (rule arg_cong[where f = concat], rule map_cong[OF refl]) (simp add: rr cc)
  have "rotational_mapping a sz = np_column_stack [cc, rr]"
    unfolding rotational_mapping_def safe_as_int_integral[OF sz] Let_def
    by (simp only: c_def[symmetric] ca cb add sum.case rr_def cc_def)
  then show ?thesis unfolding stack dat c_def by simp
qed


lemma item2_pairs:
  assumes "i < M"
  shows "item2 \<lparr>dtype = t, shape = [M, 2], data = concat (map (\<lambda>k. [f k, g k]) [0..<M])\<rparr> i 0 = f i"
    and "item2 \<lparr>dtype = t, shape = [M, 2], data = concat (map (\<lambda>k. [f k, g k]) [0..<M])\<rparr> i 1 = g i"
  using nth_pairs[OF assms, of f g] by (simp_all add: item2_def)

text \<open>
  C2: for an array of shape \<open>(M, 2)\<close> and an integral window size, the 2-D mapper returns
  an array of shape \<open>(M, 2)\<close> whose row \<open>i\<close> is \<open>(0, radius i)\<close>, the radius being the
  distance of \<open>(col, row)\<close> to \<open>(c, c)\<close> with \<open>c = size / 2 - 0.5\<close>; with window size 4 the
  point \<open>(1.5, 1.5)\<close> is mapped to radius 0.
\<close>

theorem rotational_mapping_radius:
  assumes "shape a = [M, 2]" and "wf_array a" and "num_value sz \<in> \<int>"
  shows "(\<exists>b. rotational_mapping a sz = Inr b \<and> shape b = [M, 2] \<and> wf_array b \<and>
            (\<forall>i<M. item2 b i 0 = 0 \<and>
                    item2 b i 1 = sqrt ((item2 a i 0 - (num_value sz / 2 - 1 / 2))\<^sup>2 +
                                        (item2 a i 1 - (num_value sz / 2 - 1 / 2))\<^sup>2))) \<and>
         rotational_mapping \<lparr>dtype = Float64, shape = [1, 2], data = [3 / 2, 3 / 2]\<rparr> (PyInt 4) =
           Inr \<lparr>dtype = Float64, shape = [1, 2], data = [0, 0]\<rparr>"
proof
  from assms(3) obtain n where n: "num_value sz = of_int n" by (auto elim: Ints_cases)
  define r where "r = (\<lambda>k. sqrt ((item2 a k 0 - (of_int n / 2 - 1 / 2))\<^sup>2 +
                                (item2 a k 1 - (of_int n / 2 - 1 / 2))\<^sup>2))"
  define b where "b = \<lparr>dtype = Float64, shape = [M, 2],
                        data = concat (map (\<lambda>k. [0, r k]) [0..<M])\<rparr>"
  have b: "rotational_mapping a sz = Inr b"
    unfolding b_def r_def by (rule rotational_mapping_2d[OF assms(1,2) _ n]) simp
  have "shape b = [M, 2]" "wf_array b"
    by (simp_all add: b_def wf_array_def length_pairs)
  moreover have "item2 b i 0 = 0 \<and> item2 b i 1 = r i" if "i < M" for i
    unfolding b_def using item2_pairs[OF that, of Float64 "\<lambda>k. 0" r] by simp
  ultimately show "\<exists>b. rotational_mapping a sz = Inr b \<and> shape b = [M, 2] \<and> wf_array b \<and>
            (\<forall>i<M. item2 b i 0 = 0 \<and>
                    item2 b i 1 = sqrt ((item2 a i 0 - (num_value sz / 2 - 1 / 2))\<^sup>2 +
                                        (item2 a i 1 - (num_value sz / 2 - 1 / 2))\<^sup>2))"
    using b unfolding n r_def by blast
next
  let ?A = "\<lparr>dtype = Float64, shape = [1, 2], data = [3 / 2, 3 / 2]\<rparr>"
  have "rotational_mapping ?A (PyInt 4) =
     Inr \<lparr>dtype = Float64, shape = [1, 2],
          data = concat (map (\<lambda>k. [0, sqrt ((item2 ?A k 0 - (of_int 4 / 2 - 1 / 2))\<^sup>2 +
                                            (item2 ?A k 1 - (of_int 4 / 2 - 1 / 2))\<^sup>2)])
                             [0..<1])\<rparr>"
    by (rule rotational_mapping_2d[where N = 2]) (simp_all add: wf_array_def)
  then show "rotational_mapping ?A (PyInt 4) = Inr \<lparr>dtype = Float64, shape = [1, 2], data = [0, 0]\<rparr>"
    by (simp add: item2_def)
qed

theorem rotational_mapping_radius_witness:
  "\<exists>b. rotational_mapping \<lparr>dtype = Float64, shape = [1, 2], data = [0, 0]\<rparr> (PyInt 2) = Inr b \<and>
       shape b = [1, 2] \<and> wf_array b \<and> item2 b 0 0 = 0 \<and>
       item2 b 0 1 = sqrt ((item2 \<lparr>dtype = Float64, shape = [1, 2], data = [0, 0]\<rparr> 0 0 - (2 / 2 - 1 / 2))\<^sup>2 +
                           (item2 \<lparr>dtype = Float64, shape = [1, 2], data = [0, 0]\<rparr> 0 1 - (2 / 2 - 1 / 2))\<^sup>2)"
  using rotational_mapping_radius[of "\<lparr>dtype = Float64, shape = [1, 2], data = [0, 0]\<rparr>" 1 "PyInt 2"]
  by (auto simp: wf_array_def)

subsection \<open>The N-D builder\<close>

lemma half_profile_ok: "\<exists>w. half_profile l = Inr w \<and> length (shape w) = 1"
  by (simp add: half_profile_def safe_as_int_def np_slice_from_def Let_def)

lemma expand_loop_ok: "shape w \<noteq> [] \<Longrightarrow> \<exists>w'. expand_loop n w = Inr w'"
proof (induction n arbitrary: w)
  case 0
  then show ?case by simp
next
  case (Suc n)
  then obtain d rest where "shape w = d # rest" by (cases "shape w") auto
  then show ?case using Suc.IH[of "w\<lparr>shape := d # 1 # rest\<rparr>"]
    by (simp add: np_expand_dims1_def)
qed

lemma get_windownd_coords:
  assumes "gw window sz = Inr l"
  shows "get_windownd gw window sz ndim =
     (case lattice_coords sz ndim of Inl e \<Rightarrow> Inl e | Inr outcoords \<Rightarrow>
     (case ndrotational_mapping outcoords sz of Inl e \<Rightarrow> Inl e | Inr coords \<Rightarrow>
        np_dstack [coords, outcoords]))"
proof -
  obtain w where w: "half_profile l = Inr w" "length (shape w) = 1"
    using half_profile_ok by blast
  then have "shape w \<noteq> []" by auto
  then obtain w' where "expand_loop (nat (ndim - 1)) w = Inr w'"
    using expand_loop_ok by blast
  then show ?thesis
    by (simp add: get_windownd_def assms w split: sum.splits)
qed

text \<open>
  C9: the result of the N-D builder does not depend on the window specification: for two
  specifications that the window generator accepts at the given size, the builder returns
  the same value (the same array, or the same failure) for every size and every \<open>ndim\<close>.
\<close>

theorem get_windownd_window_independent:
  assumes "gw window1 sz = Inr l1" and "gw window2 sz = Inr l2"
  shows "get_windownd gw window1 sz ndim = get_windownd gw window2 sz ndim"
  using get_windownd_coords[of gw window1 sz l1 ndim] get_windownd_coords[of gw window2 sz l2 ndim] assms
  by simp

theorem get_windownd_window_independent_witness:
  "get_windownd example_get_window (Name ''hann'') (PyInt 4) 3 =
   get_windownd example_get_window (Name ''boxcar'') (PyInt 4) 3"
  using get_windownd_window_independent[of example_get_window "Name ''hann''" "PyInt 4"
      "[0, 3 / 4, 3 / 4, 0]" "Name ''boxcar''" "replicate 4 1" 3]
  by (simp add: example_get_window_def axis_length_def)

lemma lattice_coords_no_axes: "ndim < 1 \<Longrightarrow> lattice_coords sz ndim = Inl DimensionMismatchError"
  by (simp add: lattice_coords_def np_meshgrid_def np_hstack_def np_concatenate_def mesh_shape_def)

text \<open>
  C8: with \<open>ndim < 1\<close> the N-D builder fails. It never returns a result, and when the
  window generator accepts the specification the failure is the dimension error: there
  is no array to stack.
\<close>

theorem get_windownd_no_axes:
  assumes "ndim < 1"
  shows "(\<exists>e. get_windownd gw window sz ndim = Inl e) \<and>
         (\<forall>l. gw window sz = Inr l \<longrightarrow> get_windownd gw window sz ndim = Inl DimensionMismatchError)"
proof -
  have r: "get_windownd gw window sz ndim = Inl DimensionMismatchError" if "gw window sz = Inr l" for l
    using get_windownd_coords[of gw window sz l ndim] that
    by (simp add: lattice_coords_no_axes[OF assms])
  show ?thesis
  proof (cases "gw window sz")
    case (Inl e)
    then show ?thesis by (simp add: get_windownd_def)
  next
    case (Inr l)
    then show ?thesis using r by simp
  qed
qed

theorem get_windownd_no_axes_witness:
  "(\<exists>e. get_windownd example_get_window (Name ''hann'') (PyInt 4) 0 = Inl e) \<and>
   get_windownd example_get_window (Name ''hann'') (PyInt 4) 0 = Inl DimensionMismatchError"
  using get_windownd_no_axes[of 0 example_get_window "Name ''hann''" "PyInt 4"]
  by (simp add: example_get_window_def)

subsection \<open>The coordinate lattice exists for two axes and more\<close>







subsection \<open>Sizes that are not integers\<close>




lemma floor_half: "\<lfloor>real n / 2\<rfloor> = int (n div 2)"
  using floor_divide_of_nat_eq[of n 2, where ?'a = real] by simp

lemma half_profile_eq:
  "half_profile l =
     Inr \<lparr>dtype = Float64, shape = [length l - length l div 2], data = drop (length l div 2) l\<rparr>"
  by (simp add: half_profile_def safe_as_int_def np_slice_from_def Let_def floor_half min_def)

lemma get_window2_warp:
  assumes "gw window sz = Inr l"
  shows "get_window2 gw interp window sz =
           warp interp (profile_image l) rotational_mapping sz (sz, sz)"
  by (simp add: get_window2_def assms half_profile_eq np_expand_dims1_def profile_image_def)




subsection \<open>The 2-D builder\<close>

lemma concat_grid:
  "concat (map (\<lambda>r. map (\<lambda>c. g r c) [0..<C]) [0..<R]) =
   map (\<lambda>k. g (k div C) (k mod C)) [0..<R * C]"
proof (induction R)
  case 0
  then show ?case by simp
next
  case (Suc R)
  have eq: "Suc R * C = R * C + C" by simp
  have split: "[0..<R * C + C] = [0..<R * C] @ [R * C..<R * C + C]"
    by (rule upt_add_eq_append) simp
  have "[R * C..<R * C + C] = map (\<lambda>i. i + R * C) [0..<C]"
    using map_add_upt[of "R * C" C] by (simp only: add.commute[of C "R * C"])
  then have "map (\<lambda>k. g (k div C) (k mod C)) [R * C..<R * C + C] =
        map (\<lambda>c. g ((c + R * C) div C) ((c + R * C) mod C)) [0..<C]"
    by (simp only: map_map comp_def)
  also have "\<dots> = map (\<lambda>c. g R c) [0..<C]"
    by (rule map_cong[OF refl]) simp
  finally have last: "map (\<lambda>k. g (k div C) (k mod C)) [R * C..<R * C + C] = map (\<lambda>c. g R c) [0..<C]" .
  have "concat (map (\<lambda>r. map (\<lambda>c. g r c) [0..<C]) [0..<Suc R]) =
        concat (map (\<lambda>r. map (\<lambda>c. g r c) [0..<C]) [0..<R]) @ map (\<lambda>c. g R c) [0..<C]"
    by simp
  also have "\<dots> = map (\<lambda>k. g (k div C) (k mod C)) [0..<R * C] @
                   map (\<lambda>k. g (k div C) (k mod C)) [R * C..<R * C + C]"
    by (simp only: Suc.IH last)
  also have "\<dots> = map (\<lambda>k. g (k div C) (k mod C)) [0..<Suc R * C]"
    by (simp only: eq split map_append)
  finally show ?case .
qed

lemma concat_concat_map: "concat (map (\<lambda>r. concat (h r)) ys) = concat (concat (map h ys))"
  by (induction ys) simp_all

lemma pixel_grid_data:
  "data (pixel_grid R C) = concat (map (\<lambda>k. [real (k mod C), real (k div C)]) [0..<R * C])"
proof -
  have "concat (map (\<lambda>r. concat (map (\<lambda>c. [real c, real r]) [0..<C])) [0..<R]) =
        concat (concat (map (\<lambda>r. map (\<lambda>c. [real c, real r]) [0..<C]) [0..<R]))"
    by (rule concat_concat_map)
  also have "\<dots> = concat (map (\<lambda>k. [real (k mod C), real (k div C)]) [0..<R * C])"
    by (simp only: concat_grid)
  finally show ?thesis by (simp add: pixel_grid_def)
qed

lemma item2_pixel_grid:
  assumes "k < R * C"
  shows "item2 (pixel_grid R C) k 0 = real (k mod C)" and "item2 (pixel_grid R C) k 1 = real (k div C)"
proof -
  have "pixel_grid R C = \<lparr>dtype = Float64, shape = [R * C, 2],
      data = concat (map (\<lambda>k. [real (k mod C), real (k div C)]) [0..<R * C])\<rparr>"
    using pixel_grid_data[of R C] by (simp add: pixel_grid_def)
  then show "item2 (pixel_grid R C) k 0 = real (k mod C)"
    and "item2 (pixel_grid R C) k 1 = real (k div C)"
    using item2_pairs[OF assms, of Float64 "\<lambda>k. real (k mod C)" "\<lambda>k. real (k div C)"]
    by simp_all
qed

lemma rotational_mapping_pixel_grid:
  "rotational_mapping (pixel_grid N N) (PyInt n) =
     Inr \<lparr>dtype = Float64, shape = [N * N, 2],
          data = concat (map (\<lambda>k. [0, pixel_radius n (k div N) (k mod N)]) [0..<N * N])\<rparr>"
proof -
  have wf: "wf_array (pixel_grid N N)"
    by (simp add: wf_array_def pixel_grid_data length_pairs) (simp add: pixel_grid_def)
  have "rotational_mapping (pixel_grid N N) (PyInt n) =
     Inr \<lparr>dtype = Float64, shape = [N * N, 2],
          data = concat (map (\<lambda>k. [0, sqrt ((item2 (pixel_grid N N) k 0 - (of_int n / 2 - 1 / 2))\<^sup>2 +
                                            (item2 (pixel_grid N N) k 1 - (of_int n / 2 - 1 / 2))\<^sup>2)])
                             [0..<N * N])\<rparr>"
    by (rule rotational_mapping_2d[where N = 2]) (simp_all add: wf, simp add: pixel_grid_def)
  also have "concat (map (\<lambda>k. [0, sqrt ((item2 (pixel_grid N N) k 0 - (of_int n / 2 - 1 / 2))\<^sup>2 +
                                            (item2 (pixel_grid N N) k 1 - (of_int n / 2 - 1 / 2))\<^sup>2)])
                             [0..<N * N]) =
      concat (map (\<lambda>k. [0, pixel_radius n (k div N) (k mod N)]) [0..<N * N])"
    by (rule arg_cong[where f = concat], rule map_cong[OF refl])
       (simp add: item2_pixel_grid item2_pixel_grid(2)[simplified] pixel_radius_def)
  finally show ?thesis .
qed

lemma get_window2_pixels:
  assumes "gw window (PyInt n) = Inr l"
  shows "get_window2 gw interp window (PyInt n) =
     Inr \<lparr>dtype = Float64, shape = [nat n, nat n],
          data = map (\<lambda>m. interp (profile_image l) (0, pixel_radius n (m div nat n) (m mod nat n)))
                     [0..<nat n * nat n]\<rparr>"
proof -
  define N where "N = nat n"
  define src where "src = concat (map (\<lambda>k. [0, pixel_radius n (k div N) (k mod N)]) [0..<N * N])"
  have ax: "axis_length (PyInt n) = N" by (simp add: axis_length_def N_def)
  have rm: "rotational_mapping (pixel_grid N N) (PyInt n) =
     Inr \<lparr>dtype = Float64, shape = [N * N, 2], data = src\<rparr>"
    unfolding src_def by (rule rotational_mapping_pixel_grid)
  have len: "length src = N * N * 2" by (simp add: src_def length_pairs)
  have "map (\<lambda>m. interp (profile_image l) (src ! (2 * m), src ! (2 * m + 1))) [0..<N * N] =
        map (\<lambda>m. interp (profile_image l) (0, pixel_radius n (m div N) (m mod N))) [0..<N * N]"
  proof (rule map_cong[OF refl])
    fix m assume "m \<in> set [0..<N * N]"
    then have "m < N * N" by simp
    from nth_pairs[OF this, of "\<lambda>k. 0" "\<lambda>k. pixel_radius n (k div N) (k mod N)"]
    have "src ! (2 * m) = 0" "src ! (2 * m + 1) = pixel_radius n (m div N) (m mod N)"
      by (simp_all add: src_def mult.commute)
    then show "interp (profile_image l) (src ! (2 * m), src ! (2 * m + 1)) =
               interp (profile_image l) (0, pixel_radius n (m div N) (m mod N))"
      by simp
  qed
  then have "warp interp (profile_image l) rotational_mapping (PyInt n) (PyInt n, PyInt n) =
     Inr \<lparr>dtype = Float64, shape = [N, N],
          data = map (\<lambda>m. interp (profile_image l) (0, pixel_radius n (m div N) (m mod N)))
                     [0..<N * N]\<rparr>"
    by (simp add: warp_def ax rm len)
  then show ?thesis
    unfolding get_window2_warp[of gw window "PyInt n" l interp, OF assms] N_def .
qed


lemma pixel_radius_transpose: "pixel_radius n i j = pixel_radius n j i"
  by (simp add: pixel_radius_def add.commute)

lemma pixel_radius_reflect:
  assumes "i < nat n" and "j < nat n"
  shows "pixel_radius n (nat n - 1 - i) (nat n - 1 - j) = pixel_radius n i j"
proof -
  have r: "real (nat n - 1 - k) - (of_int n / 2 - 1 / 2) = - (real k - (of_int n / 2 - 1 / 2))"
    if "k < nat n" for k
  proof -
    from that have "real (nat n - 1 - k) = real_of_int n - 1 - real k"
      by (simp add: of_nat_diff)
    then show ?thesis by simp
  qed
  show ?thesis unfolding pixel_radius_def r[OF assms(1)] r[OF assms(2)] power2_minus ..
qed

text \<open>
  C6: for a positive integer size that the window generator accepts, the 2-D builder
  returns an array of shape \<open>(size, size)\<close>.
\<close>

theorem get_window2_shape:
  assumes "gw window (PyInt n) = Inr l" and "0 < n"
  shows "\<exists>a. get_window2 gw interp window (PyInt n) = Inr a \<and> map int (shape a) = [n, n] \<and>
             wf_array a"
  using assms get_window2_pixels[of gw window n l interp] by (simp add: wf_array_def)

theorem get_window2_shape_witness:
  "\<exists>a. get_window2 example_get_window (\<lambda>img p. 0) (Name ''boxcar'') (PyInt 5) = Inr a \<and>
       map int (shape a) = [5, 5] \<and> wf_array a"
  using get_window2_shape[of example_get_window "Name ''boxcar''" 5 "replicate 5 1" "\<lambda>img p. 0"]
  by (simp add: example_get_window_def axis_length_def)

text \<open>
  C5: for a positive integer size that the window generator accepts, the window of the 2-D
  builder is unchanged by the point reflection \<open>(i, j) \<mapsto> (size-1-i, size-1-j)\<close> and by
  transposition; the entries are equal, whatever the interpolation.
\<close>

theorem get_window2_symmetric:
  assumes "gw window (PyInt n) = Inr l" and "0 < n"
  shows "\<exists>a. get_window2 gw interp window (PyInt n) = Inr a \<and>
           (\<forall>i<nat n. \<forall>j<nat n. item2 a i j = item2 a (nat n - 1 - i) (nat n - 1 - j) \<and>
                                  item2 a i j = item2 a j i)"
proof -
  define a where "a = \<lparr>dtype = Float64, shape = [nat n, nat n],
          data = map (\<lambda>m. interp (profile_image l) (0, pixel_radius n (m div nat n) (m mod nat n)))
                     [0..<nat n * nat n]\<rparr>"
  have a: "get_window2 gw interp window (PyInt n) = Inr a"
    unfolding a_def using assms(1) by (rule get_window2_pixels)
  have px: "item2 a i j = interp (profile_image l) (0, pixel_radius n i j)"
    if "i < nat n" "j < nat n" for i j
    unfolding a_def using that by (simp add: item2_mapped)
  have "item2 a i j = item2 a (nat n - 1 - i) (nat n - 1 - j) \<and> item2 a i j = item2 a j i"
    if "i < nat n" "j < nat n" for i j
  proof -
    have lt: "nat n - 1 - i < nat n" "nat n - 1 - j < nat n" using that by simp_all
    have "item2 a (nat n - 1 - i) (nat n - 1 - j) = item2 a i j"
      unfolding px[OF lt] px[OF that] pixel_radius_reflect[OF that] ..
    moreover have "item2 a j i = item2 a i j"
      unfolding px[OF that] px[OF that(2) that(1)] pixel_radius_transpose[of n j i] ..
    ultimately show ?thesis by simp
  qed
  then show ?thesis using a by blast
qed

theorem get_window2_symmetric_witness:
  "\<exists>a. get_window2 example_get_window (\<lambda>img p. snd p) (Name ''boxcar'') (PyInt 2) = Inr a \<and>
       item2 a 0 1 = item2 a 1 0 \<and> item2 a 0 0 = item2 a 1 1"
proof -
  have g: "example_get_window (Name ''boxcar'') (PyInt 2) = Inr (replicate 2 1)"
    by (simp add: example_get_window_def axis_length_def)
  have "\<exists>a. get_window2 example_get_window (\<lambda>img p. snd p) (Name ''boxcar'') (PyInt 2) = Inr a \<and>
           (\<forall>i<nat 2. \<forall>j<nat 2. item2 a i j = item2 a (nat 2 - 1 - i) (nat 2 - 1 - j) \<and>
                                  item2 a i j = item2 a j i)"
    by (rule get_window2_symmetric[of example_get_window "Name ''boxcar''" 2 "replicate 2 1"
          "\<lambda>img p. snd p", OF g]) simp
  then obtain a where a: "get_window2 example_get_window (\<lambda>img p. snd p) (Name ''boxcar'') (PyInt 2) = Inr a"
    and s: "\<forall>i<nat 2. \<forall>j<nat 2. item2 a i j = item2 a (nat 2 - 1 - i) (nat 2 - 1 - j) \<and>
                                  item2 a i j = item2 a j i"
    by blast
  from s[rule_format, of 0 1] have "item2 a 0 1 = item2 a 1 0" by simp
  moreover from s[rule_format, of 0 0] have "item2 a 0 0 = item2 a 1 1" by simp
  ultimately show ?thesis using a by blast
qed

subsection \<open>The N-D builder on a lattice of size 4 in three dimensions\<close>

lemma np_dstack_pair:
  assumes "shape c = [M, N]" "shape r = [M, N]" "length (data c) = M * N" "length (data r) = M * N"
    "dtype c = Float64" "dtype r = Float64"
  shows "np_dstack [c, r] =
     Inr \<lparr>dtype = Float64, shape = [M, N, 2],
          data = concat (map (\<lambda>k. [data c ! k, data r ! k]) [0..<M * N])\<rparr>"
proof -
  have "concat (map (\<lambda>k. take (Suc 0) (drop k (data c)) @ take (Suc 0) (drop k (data r))) [0..<M * N]) =
        concat (map (\<lambda>k. [data c ! k, data r ! k]) [0..<M * N])"
    by (rule arg_cong[where f = concat], rule map_cong[OF refl]) (simp add: take1_drop assms)
  then show ?thesis
    using assms by (simp add: np_dstack_def np_concatenate_def atleast_3d_def)
qed

lemma get_windownd_pairs:
  assumes gw: "gw window sz = Inr l" and sz: "num_value sz = of_int n"
    and oc: "lattice_coords sz ndim = Inr oc"
    and sh: "shape oc = [M, N]" and wf: "wf_array oc" and dt: "dtype oc = Float64" and N: "0 < N"
  shows "get_windownd gw window sz ndim =
     Inr \<lparr>dtype = Float64, shape = [M, N, 2],
          data = concat (map (\<lambda>k. [if k mod N = 0 then radius_nd oc (of_int n / 2 - 1 / 2) (k div N) else 0,
                                     data oc ! k]) [0..<M * N])\<rparr>"
proof -
  define f where "f = (\<lambda>k. if k mod N = 0 then radius_nd oc (of_int n / 2 - 1 / 2) (k div N) else 0)"
  define coords where "coords = \<lparr>dtype = Float64, shape = [M, N], data = map f [0..<M * N]\<rparr>"
  have len: "length (data oc) = M * N" using wf sh by (simp add: wf_array_def)
  have m: "ndrotational_mapping oc sz = Inr coords"
    using ndrotational_mapping_2d[OF sh wf N sz] by (simp add: coords_def f_def dt)
  have st: "np_dstack [coords, oc] =
     Inr \<lparr>dtype = Float64, shape = [M, N, 2],
          data = concat (map (\<lambda>k. [data coords ! k, data oc ! k]) [0..<M * N])\<rparr>"
    by (rule np_dstack_pair) (simp_all add: coords_def sh len dt)
  have "concat (map (\<lambda>k. [data coords ! k, data oc ! k]) [0..<M * N]) =
        concat (map (\<lambda>k. [f k, data oc ! k]) [0..<M * N])"
    by (rule arg_cong[where f = concat], rule map_cong[OF refl]) (simp add: coords_def)
  then show ?thesis
    using get_windownd_coords[of gw window sz l ndim] gw
    by (simp add: oc m st f_def)
qed

lemma item3_pairs:
  assumes "i < M" "j < N"
  shows "item3 \<lparr>dtype = t, shape = [M, N, 2], data = concat (map (\<lambda>k. [f k, g k]) [0..<M * N])\<rparr> i j 0 = f (i * N + j)"
    and "item3 \<lparr>dtype = t, shape = [M, N, 2], data = concat (map (\<lambda>k. [f k, g k]) [0..<M * N])\<rparr> i j 1 = g (i * N + j)"
  using nth_pairs[OF flat_bound[OF assms], of f g] by (simp_all add: item3_def)


lemma lattice_coords_4_3:
  "lattice_coords (PyInt 4) 3 =
     Inr \<lparr>dtype = Float64, shape = [64, 3],
          data = concat (map (\<lambda>i. [real (i div 16), real (i div 4 mod 4), real (i mod 4)]) [0..<64])\<rparr>"
  by code_simp

lemma length_triples: "length (concat (map (\<lambda>k. [f k, g k, h k]) [0..<M])) = M * 3"
  by (induction M) simp_all

lemma nth_triples:
  "i < M \<Longrightarrow> concat (map (\<lambda>k. [f k, g k, h k]) [0..<M]) ! (i * 3) = f i \<and>
             concat (map (\<lambda>k. [f k, g k, h k]) [0..<M]) ! (i * 3 + 1) = g i \<and>
             concat (map (\<lambda>k. [f k, g k, h k]) [0..<M]) ! (i * 3 + 2) = h i"
proof (induction M)
  case 0
  then show ?case by simp
next
  case (Suc M)
  show ?case
  proof (cases "i < M")
    case True
    then have "i * 3 < M * 3" "i * 3 + 1 < M * 3" "i * 3 + 2 < M * 3" by simp_all
    then show ?thesis using Suc.IH[OF True] by (simp add: nth_append length_triples)
  next
    case False
    then have "i = M" using Suc.prems by simp
    then show ?thesis by (simp add: nth_append length_triples)
  qed
qed

lemma sq_bound: "d < 4 \<Longrightarrow> (real d - 3 / 2)\<^sup>2 \<le> 9 / 4"
proof -
  assume "d < 4"
  then have u: "real d \<le> 3" by simp
  have l: "0 \<le> real d" by simp
  have "\<bar>real d - 3 / 2\<bar> \<le> 3 / 2" using u l by linarith
  then have "\<bar>real d - 3 / 2\<bar> \<le> \<bar>3 / 2 :: real\<bar>" by simp
  then have "(real d - 3 / 2)\<^sup>2 \<le> (3 / 2 :: real)\<^sup>2" by (simp only: abs_le_square_iff)
  then show ?thesis by (simp add: power2_eq_square)
qed


lemma sum_three: "(\<Sum>j<3. g j) = g 0 + g 1 + (g (2::nat) :: real)"
  by (simp add: numeral_3_eq_3 numeral_2_eq_2 lessThan_Suc)

text \<open>
  C4: with a window generator that accepts \<open>"hann"\<close> at size 4, the N-D builder with
  \<open>ndim = 3\<close> returns \<open>4^3 = 64\<close> coordinate/radius pairs: the lattice points of
  \<open>[0, 4)^3\<close> in row-major order, each with its distance to the centre
  \<open>(1.5, 1.5, 1.5)\<close>; the pair of the lattice point \<open>(0, 0, 0)\<close> has a radius at least as
  large as the radius of every pair.
\<close>

theorem get_windownd_hann_4_3:
  assumes "gw (Name ''hann'') (PyInt 4) = Inr l"
  shows "\<exists>a. get_windownd gw (Name ''hann'') (PyInt 4) 3 = Inr a \<and>
           shape a = [64, 3, 2] \<and> wf_array a \<and>
           (\<forall>i<64. pair_coordinate a i = [real (i div 16), real (i div 4 mod 4), real (i mod 4)] \<and>
                    pair_radius a i = sqrt (\<Sum>x\<leftarrow>pair_coordinate a i. (x - 3 / 2)\<^sup>2)) \<and>
           (\<forall>i<64. \<forall>k<64. pair_coordinate a i = [0, 0, 0] \<longrightarrow> pair_radius a k \<le> pair_radius a i)"
proof -
  define A where "A = (\<lambda>i::nat. real (i div 16))"
  define B where "B = (\<lambda>i::nat. real (i div 4 mod 4))"
  define C where "C = (\<lambda>i::nat. real (i mod 4))"
  define T where "T = concat (map (\<lambda>i. [A i, B i, C i]) [0..<64])"
  define oc where "oc = \<lparr>dtype = Float64, shape = [64, 3], data = T\<rparr>"
  define F where "F = (\<lambda>k. if k mod 3 = 0 then radius_nd oc (of_int 4 / 2 - 1 / 2) (k div 3) else 0)"
  define a where "a = \<lparr>dtype = Float64, shape = [64, 3, 2],
                        data = concat (map (\<lambda>k. [F k, data oc ! k]) [0..<64 * 3])\<rparr>"
  have lat: "lattice_coords (PyInt 4) 3 = Inr oc"
    unfolding oc_def T_def A_def B_def C_def by (rule lattice_coords_4_3)
  have lenT: "length T = 64 * 3" by (simp add: T_def length_triples)
  have T: "T ! (i * 3) = A i" "T ! (i * 3 + 1) = B i" "T ! (i * 3 + 2) = C i" if "i < 64" for i
    using nth_triples[OF that, of A B C] by (simp_all add: T_def)
  have a: "get_windownd gw (Name ''hann'') (PyInt 4) 3 = Inr a"
    unfolding a_def F_def
    by (rule get_windownd_pairs[of gw "Name ''hann''" "PyInt 4" l 4 3 oc 64 3])
       (simp_all add: assms lat, simp_all add: oc_def wf_array_def lenT)
  have sh: "shape a = [64, 3, 2]" "wf_array a"
    by (simp_all add: a_def wf_array_def length_pairs)
  have i3: "item3 a i j 0 = F (i * 3 + j)" "item3 a i j 1 = data oc ! (i * 3 + j)"
    if "i < 64" "j < 3" for i j
    unfolding a_def using item3_pairs[OF that, of Float64 F "\<lambda>k. data oc ! k"] by simp_all
  have co: "pair_coordinate a i = [A i, B i, C i]" if "i < 64" for i
  proof -
    have "pair_coordinate a i = [item3 a i 0 1, item3 a i 1 1, item3 a i 2 1]"
      by (simp add: pair_coordinate_def sh upt_rec numeral_2_eq_2)
    also have "\<dots> = [data oc ! (i * 3 + 0), data oc ! (i * 3 + 1), data oc ! (i * 3 + 2)]"
    proof -
      have "item3 a i 0 1 = data oc ! (i * 3 + 0)" by (rule i3(2)[OF that]) simp
      moreover have "item3 a i 1 1 = data oc ! (i * 3 + 1)" by (rule i3(2)[OF that]) simp
      moreover have "item3 a i 2 1 = data oc ! (i * 3 + 2)" by (rule i3(2)[OF that]) simp
      ultimately show ?thesis by (simp only:)
    qed
    also have "\<dots> = [A i, B i, C i]"
      using T[OF that] by (simp add: oc_def)
    finally show ?thesis .
  qed
  have item2: "item2 oc i 0 = A i" "item2 oc i 1 = B i" "item2 oc i 2 = C i" if "i < 64" for i
    using T[OF that] by (simp_all add: item2_def oc_def)
  have rn: "radius_nd oc (3 / 2) i = sqrt ((A i - 3 / 2)\<^sup>2 + (B i - 3 / 2)\<^sup>2 + (C i - 3 / 2)\<^sup>2)"
    if "i < 64" for i
  proof -
    have "shape oc ! 1 = 3" by (simp add: oc_def)
    then show ?thesis unfolding radius_nd_def by (simp only: sum_three item2[OF that])
  qed
  have ra: "pair_radius a i = sqrt ((A i - 3 / 2)\<^sup>2 + (B i - 3 / 2)\<^sup>2 + (C i - 3 / 2)\<^sup>2)"
    if "i < 64" for i
  proof -
    have "pair_radius a i = F (i * 3 + 0)"
      unfolding pair_radius_def by (rule i3(1)[OF that]) simp
    also have "\<dots> = radius_nd oc (3 / 2) i" by (simp add: F_def)
    finally show ?thesis by (simp add: rn[OF that])
  qed
  have digits: "i div 16 < 4" "i div 4 mod 4 < 4" "i mod 4 < 4" if "i < 64" for i :: nat
    using that by simp_all
  have bound: "pair_radius a k \<le> sqrt (27 / 4)" if "k < 64" for k
  proof -
    have "(A k - 3 / 2)\<^sup>2 \<le> 9 / 4" "(B k - 3 / 2)\<^sup>2 \<le> 9 / 4" "(C k - 3 / 2)\<^sup>2 \<le> 9 / 4"
      unfolding A_def B_def C_def using digits[OF that] by (simp_all only: sq_bound)
    then have "(A k - 3 / 2)\<^sup>2 + (B k - 3 / 2)\<^sup>2 + (C k - 3 / 2)\<^sup>2 \<le> 27 / 4" by linarith
    then show ?thesis unfolding ra[OF that] by (simp only: real_sqrt_le_iff)
  qed
  have corner: "pair_radius a i = sqrt (27 / 4)" if "i < 64" "pair_coordinate a i = [0, 0, 0]" for i
  proof -
    from that have "A i = 0" "B i = 0" "C i = 0" by (simp_all add: co)
    then show ?thesis unfolding ra[OF that(1)] by (simp add: power2_eq_square)
  qed
  have "pair_coordinate a i = [real (i div 16), real (i div 4 mod 4), real (i mod 4)] \<and>
        pair_radius a i = sqrt (\<Sum>x\<leftarrow>pair_coordinate a i. (x - 3 / 2)\<^sup>2)" if "i < 64" for i
    using that by (simp add: co ra) (simp add: A_def B_def C_def)
  moreover have "pair_radius a k \<le> pair_radius a i"
    if "i < 64" "k < 64" "pair_coordinate a i = [0, 0, 0]" for i k
    using bound[OF that(2)] corner[OF that(1,3)] by simp
  ultimately show ?thesis using a sh by blast
qed


theorem get_windownd_hann_4_3_witness:
  "\<exists>a. get_windownd example_get_window (Name ''hann'') (PyInt 4) 3 = Inr a \<and>
       shape a = [64, 3, 2] \<and> pair_coordinate a 0 = [0, 0, 0] \<and>
       pair_radius a 63 \<le> pair_radius a 0"
proof -
  have g: "example_get_window (Name ''hann'') (PyInt 4) = Inr [0, 3 / 4, 3 / 4, 0]"
    by (simp add: example_get_window_def)
  from get_windownd_hann_4_3[of example_get_window "[0, 3 / 4, 3 / 4, 0]", OF g]
  obtain a where a: "get_windownd example_get_window (Name ''hann'') (PyInt 4) 3 = Inr a"
    and sh: "shape a = [64, 3, 2]"
    and co: "\<forall>i<64. pair_coordinate a i = [real (i div 16), real (i div 4 mod 4), real (i mod 4)] \<and>
                     pair_radius a i = sqrt (\<Sum>x\<leftarrow>pair_coordinate a i. (x - 3 / 2)\<^sup>2)"
    and mx: "\<forall>i<64. \<forall>k<64. pair_coordinate a i = [0, 0, 0] \<longrightarrow> pair_radius a k \<le> pair_radius a i"
    by blast
  from co[rule_format, of 0] have z: "pair_coordinate a 0 = [0, 0, 0]" by simp
  from mx[rule_format, of 0 63] z have "pair_radius a 63 \<le> pair_radius a 0" by simp
  then show ?thesis using a sh z by blast
qed

end
